theory Spec2Isabelle
  imports Complex_Main "HOL-Library.Word"
begin

section \<open>Values of the host language\<close>

subsection \<open>Strings\<close>

text \<open>
  A string of the source language is a sequence of UTF-16 code units. String literals of
  the source are written \<open>utf16 ''...''\<close>; all of them are ASCII, where one character is
  one code unit.
\<close>

type_synonym code_unit = "16 word"
type_synonym js_string = "code_unit list"

definition utf16 :: "string \<Rightarrow> js_string" where
  "utf16 s = map of_char s"

text \<open>
  \<open>String.prototype.trim\<close> removes white space and line terminators from both ends:
  TAB, LF, VT, FF, CR, SP, NBSP, U+1680, U+2000 to U+200A, U+2028, U+2029, U+202F,
  U+205F, U+3000 and U+FEFF. All of them are single code units.
\<close>

definition is_white_space :: "code_unit \<Rightarrow> bool" where
  "is_white_space c \<longleftrightarrow>
     c \<in> set [0x9, 0xA, 0xB, 0xC, 0xD, 0x20, 0xA0, 0x1680, 0x2028, 0x2029,
               0x202F, 0x205F, 0x3000, 0xFEFF]
     \<or> (0x2000 \<le> c \<and> c \<le> 0x200A)"

definition trim :: "js_string \<Rightarrow> js_string" where
  "trim s = rev (dropWhile is_white_space (rev (dropWhile is_white_space s)))"

text \<open>The nullish coalescing operator \<open>a ?? b\<close>; \<open>None\<close> is \<open>undefined\<close> or \<open>null\<close>.\<close>

definition nullish :: "'a option \<Rightarrow> 'a \<Rightarrow> 'a" where
  "nullish a b = (case a of None \<Rightarrow> b | Some v \<Rightarrow> v)"

subsection \<open>Numbers\<close>

text \<open>
  A \<open>number\<close> is a finite value, NaN or one of the two infinities. Every finite double is
  a rational, and the three operations the page applies to a number (\<open>Number.isFinite\<close>,
  comparison with zero, \<open>Math.floor\<close>) are exact on doubles, so finite values are modelled
  by their rational value. The two zeros are identified; the source never tells them apart.
\<close>

datatype number = Finite rat | NaN | PosInf | NegInf

fun isFinite :: "number \<Rightarrow> bool" where
  "isFinite (Finite q) = True"
| "isFinite NaN = False"
| "isFinite PosInf = False"
| "isFinite NegInf = False"

text \<open>\<open>x <= 0\<close>: false when \<open>x\<close> is NaN.\<close>

fun le_zero :: "number \<Rightarrow> bool" where
  "le_zero (Finite q) = (q \<le> 0)"
| "le_zero NaN = False"
| "le_zero PosInf = False"
| "le_zero NegInf = True"

fun Math_floor :: "number \<Rightarrow> number" where
  "Math_floor (Finite q) = Finite (of_int \<lfloor>q\<rfloor>)"
| "Math_floor NaN = NaN"
| "Math_floor PosInf = PosInf"
| "Math_floor NegInf = NegInf"

section \<open>The data model\<close>

text \<open>The type \<open>Item\<close>. The field \<open>id\<close> is named \<open>id_item\<close> here.\<close>

record item =
  id_item :: js_string
  name :: js_string
  quantity :: number
  category :: js_string
  completed :: bool
  createdAt :: number

text \<open>The constant \<open>CATEGORIES\<close> holds the display labels.\<close>

definition CATEGORIES :: "js_string list" where
  "CATEGORIES = map utf16 [''Produce'', ''Dairy'', ''Bakery'', ''Meat'', ''Pantry'',
     ''Beverages'', ''Snacks'', ''Household'', ''Personal Care'']"

text \<open>The values the category selector can produce (the \<open>SelectItem\<close> values).\<close>

definition category_values :: "js_string list" where
  "category_values = map utf16 [''produce'', ''dairy'', ''bakery'', ''meat'', ''pantry'',
     ''beverages'', ''snacks'', ''household'', ''personal-care'']"

text \<open>
  The state of \<open>ShoppingListPage\<close>: the collection, the loading flag, the error message,
  the three fields of the add form (state variables \<open>name\<close>, \<open>quantity\<close>, \<open>category\<close>, here
  with the suffix \<open>_input\<close>) and the item being edited.
\<close>

record state =
  items :: "item list"
  loading :: bool
  error :: "js_string option"
  name_input :: js_string
  quantity_input :: number
  category_input :: js_string
  editing :: "item option"

definition initial_state :: state where
  "initial_state = \<lparr>items = [], loading = True, error = None, name_input = [],
     quantity_input = Finite 1, category_input = utf16 ''produce'', editing = None\<rparr>"

text \<open>The argument of \<open>saveEdit\<close>, a \<open>Partial<Item>\<close>; only these three fields are read.\<close>

record updates =
  upd_name :: "js_string option"
  upd_quantity :: "number option"
  upd_category :: "js_string option"

section \<open>The operations\<close>

definition resetForm :: "state \<Rightarrow> state" where
  "resetForm s = s\<lparr>name_input := [], quantity_input := Finite 1,
     category_input := utf16 ''produce'', error := None\<rparr>"

text \<open>
  \<open>addItem\<close>. The results of \<open>safeId()\<close> and \<open>Date.now()\<close> come from the environment and
  are the first two arguments.
\<close>

definition addItem :: "js_string \<Rightarrow> number \<Rightarrow> state \<Rightarrow> state" where
  "addItem fresh now s =
     (let s1 = s\<lparr>error := None\<rparr> in
      if trim (name_input s) = [] then
        s1\<lparr>error := Some (utf16 ''Please enter an item name.'')\<rparr>
      else if \<not> isFinite (quantity_input s) \<or> le_zero (quantity_input s) then
        s1\<lparr>error := Some (utf16 ''Quantity must be a positive number.'')\<rparr>
      else if category_input s = [] then
        s1\<lparr>error := Some (utf16 ''Please select a category.'')\<rparr>
      else
        let newItem = \<lparr>id_item = fresh, name = trim (name_input s),
              quantity = Math_floor (quantity_input s), category = category_input s,
              completed = False, createdAt = now\<rparr>
        in resetForm (s1\<lparr>items := newItem # items s1\<rparr>))"

definition toggleCompleted :: "js_string \<Rightarrow> state \<Rightarrow> state" where
  "toggleCompleted i s =
     s\<lparr>items := map (\<lambda>it. if id_item it = i then it\<lparr>completed := \<not> completed it\<rparr> else it)
                    (items s)\<rparr>"

definition removeItem :: "js_string \<Rightarrow> state \<Rightarrow> state" where
  "removeItem i s = s\<lparr>items := filter (\<lambda>it. id_item it \<noteq> i) (items s)\<rparr>"

definition startEdit :: "item \<Rightarrow> state \<Rightarrow> state" where
  "startEdit it s = s\<lparr>editing := Some it\<rparr>"

definition nextName :: "updates \<Rightarrow> item \<Rightarrow> js_string" where
  "nextName u e = nullish (upd_name u) (name e)"

definition nextQty :: "updates \<Rightarrow> item \<Rightarrow> number" where
  "nextQty u e = nullish (upd_quantity u) (quantity e)"

definition nextCat :: "updates \<Rightarrow> item \<Rightarrow> js_string" where
  "nextCat u e = nullish (upd_category u) (category e)"

definition saveEdit :: "updates \<Rightarrow> state \<Rightarrow> state" where
  "saveEdit u s =
     (case editing s of
        None \<Rightarrow> s
      | Some e \<Rightarrow>
          if trim (nextName u e) = [] then
            s\<lparr>error := Some (utf16 ''Item name cannot be empty.'')\<rparr>
          else if \<not> isFinite (nextQty u e) \<or> le_zero (nextQty u e) then
            s\<lparr>error := Some (utf16 ''Quantity must be a positive number.'')\<rparr>
          else
            s\<lparr>items := map (\<lambda>it. if id_item it = id_item e
                                  then it\<lparr>name := trim (nextName u e),
                                          quantity := Math_floor (nextQty u e),
                                          category := nextCat u e\<rparr>
                                  else it) (items s),
              editing := None\<rparr>)"

definition remainingCount :: "state \<Rightarrow> nat" where
  "remainingCount s = length (filter (\<lambda>i. \<not> completed i) (items s))"

section \<open>The data-model invariant\<close>

text \<open>A quantity that is an integer and at least 1.\<close>

fun positive_integer :: "number \<Rightarrow> bool" where
  "positive_integer (Finite q) = (q = of_int \<lfloor>q\<rfloor> \<and> 1 \<le> q)"
| "positive_integer NaN = False"
| "positive_integer PosInf = False"
| "positive_integer NegInf = False"

definition item_ok :: "item \<Rightarrow> bool" where
  "item_ok it \<longleftrightarrow> trim (name it) \<noteq> [] \<and> positive_integer (quantity it)"

definition invariant :: "state \<Rightarrow> bool" where
  "invariant s \<longleftrightarrow> list_all item_ok (items s)"

section \<open>JSON texts\<close>

text \<open>
  The load and persist effects call \<open>JSON.parse\<close> and \<open>JSON.stringify\<close> of the host language.
  Both are modelled here after the ECMAScript definition. A value is \<open>null\<close>, a boolean, a
  number, a string, an array or an object; an object is the list of its members in the order
  of the text (or of creation).
\<close>

datatype json = JNull | JBool bool | JNumber number | JString js_string
  | JArray "json list" | JObject "(js_string \<times> json) list"

subsection \<open>JSON.parse\<close>

text \<open>
  The parser follows the JSON grammar: white space is space, tab, line feed and carriage
  return; a number is an optional minus sign, an integer part without a leading zero, an
  optional fraction and an optional exponent. The value of a number is the exact value of
  its decimal text; the rounding of that value to a double is not modelled. Every function
  returns the value it read together with the rest of the text, or \<open>None\<close> where the text is
  no JSON. The tests \<open>length ds < length s\<close> in \<open>parse_elements\<close> and \<open>parse_members\<close> make the
  termination evident; they are always passed (\<open>parse_elements_eq\<close>, \<open>parse_members_eq\<close>).
\<close>

definition is_json_ws :: "code_unit \<Rightarrow> bool" where
  "is_json_ws c \<longleftrightarrow> c = 0x20 \<or> c = 0x9 \<or> c = 0xA \<or> c = 0xD"

definition skip_ws :: "js_string \<Rightarrow> js_string" where
  "skip_ws s = dropWhile is_json_ws s"

definition is_digit :: "code_unit \<Rightarrow> bool" where
  "is_digit c \<longleftrightarrow> 0x30 \<le> c \<and> c \<le> 0x39"

definition digit_value :: "code_unit \<Rightarrow> nat" where
  "digit_value c = unat c - 48"

definition digits_value :: "js_string \<Rightarrow> nat" where
  "digits_value ds = foldl (\<lambda>n d. 10 * n + digit_value d) 0 ds"

definition int_part :: "js_string \<Rightarrow> (nat \<times> js_string) option" where
  "int_part s =
     (case s of
        [] \<Rightarrow> None
      | c # cs \<Rightarrow>
          if c = 0x30 then Some (0, cs)
          else if is_digit c then
            Some (digits_value (c # takeWhile is_digit cs), dropWhile is_digit cs)
          else None)"

text \<open>The fraction: the value of its digits and their count.\<close>

definition frac_part :: "js_string \<Rightarrow> ((nat \<times> nat) \<times> js_string) option" where
  "frac_part s =
     (case s of
        [] \<Rightarrow> Some ((0, 0), s)
      | c # cs \<Rightarrow>
          if c = 0x2E then
            (let ds = takeWhile is_digit cs
             in if ds = [] then None
                else Some ((digits_value ds, length ds), dropWhile is_digit cs))
          else Some ((0, 0), s))"

definition exp_digits :: "js_string \<Rightarrow> (nat \<times> js_string) option" where
  "exp_digits s =
     (let ds = takeWhile is_digit s
      in if ds = [] then None else Some (digits_value ds, dropWhile is_digit s))"

definition exp_part :: "js_string \<Rightarrow> (int \<times> js_string) option" where
  "exp_part s =
     (case s of
        [] \<Rightarrow> Some (0, s)
      | c # cs \<Rightarrow>
          if c = 0x65 \<or> c = 0x45 then
            (case cs of
               [] \<Rightarrow> None
             | d # ds \<Rightarrow>
                 if d = 0x2B then map_option (\<lambda>(n, r). (int n, r)) (exp_digits ds)
                 else if d = 0x2D then map_option (\<lambda>(n, r). (- int n, r)) (exp_digits ds)
                 else map_option (\<lambda>(n, r). (int n, r)) (exp_digits cs))
          else Some (0, s))"

definition scale10 :: "rat \<Rightarrow> int \<Rightarrow> rat" where
  "scale10 x e = (if 0 \<le> e then x * 10 ^ nat e else x / 10 ^ nat (- e))"

definition unsigned_number :: "js_string \<Rightarrow> (rat \<times> js_string) option" where
  "unsigned_number s =
     (case int_part s of
        None \<Rightarrow> None
      | Some (i, s1) \<Rightarrow>
          (case frac_part s1 of
             None \<Rightarrow> None
           | Some ((f, k), s2) \<Rightarrow>
               (case exp_part s2 of
                  None \<Rightarrow> None
                | Some (e, s3) \<Rightarrow> Some (scale10 (of_nat i + of_nat f / 10 ^ k) e, s3))))"

definition parse_number :: "js_string \<Rightarrow> (number \<times> js_string) option" where
  "parse_number s =
     (case s of
        [] \<Rightarrow> None
      | c # cs \<Rightarrow>
          if c = 0x2D then map_option (\<lambda>(q, r). (Finite (- q), r)) (unsigned_number cs)
          else map_option (\<lambda>(q, r). (Finite q, r)) (unsigned_number s))"

definition hex_value :: "code_unit \<Rightarrow> nat option" where
  "hex_value c =
     (if 0x30 \<le> c \<and> c \<le> 0x39 then Some (unat c - 0x30)
      else if 0x61 \<le> c \<and> c \<le> 0x66 then Some (unat c - 0x61 + 10)
      else if 0x41 \<le> c \<and> c \<le> 0x46 then Some (unat c - 0x41 + 10)
      else None)"

definition hex4 :: "code_unit \<Rightarrow> code_unit \<Rightarrow> code_unit \<Rightarrow> code_unit \<Rightarrow> code_unit option" where
  "hex4 a b c d =
     (case (hex_value a, hex_value b, hex_value c, hex_value d) of
        (Some w, Some x, Some y, Some z) \<Rightarrow> Some (of_nat (4096 * w + 256 * x + 16 * y + z))
      | _ \<Rightarrow> None)"

definition unescape :: "code_unit \<Rightarrow> code_unit option" where
  "unescape e =
     (if e = 0x22 then Some 0x22
      else if e = 0x5C then Some 0x5C
      else if e = 0x2F then Some 0x2F
      else if e = 0x62 then Some 0x8
      else if e = 0x66 then Some 0xC
      else if e = 0x6E then Some 0xA
      else if e = 0x72 then Some 0xD
      else if e = 0x74 then Some 0x9
      else None)"

definition cons_result :: "'a \<Rightarrow> ('a list \<times> 'b) option \<Rightarrow> ('a list \<times> 'b) option" where
  "cons_result x r = map_option (\<lambda>(xs, rest). (x # xs, rest)) r"

fun parse_string_body :: "js_string \<Rightarrow> (js_string \<times> js_string) option" where
  "parse_string_body [] = None"
| "parse_string_body (c # cs) =
     (if c = 0x22 then Some ([], cs)
      else if c = 0x5C then
        (case cs of
           [] \<Rightarrow> None
         | e # es \<Rightarrow>
             if e = 0x75 then
               (case es of
                  h1 # h2 # h3 # h4 # r \<Rightarrow>
                    (case hex4 h1 h2 h3 h4 of
                       None \<Rightarrow> None
                     | Some u \<Rightarrow> cons_result u (parse_string_body r))
                | _ \<Rightarrow> None)
             else
               (case unescape e of
                  None \<Rightarrow> None
                | Some u \<Rightarrow> cons_result u (parse_string_body es)))
      else if c < 0x20 then None
      else cons_result c (parse_string_body cs))"

fun strip_prefix :: "'a list \<Rightarrow> 'a list \<Rightarrow> 'a list option" where
  "strip_prefix [] s = Some s"
| "strip_prefix (p # ps) [] = None"
| "strip_prefix (p # ps) (c # cs) = (if p = c then strip_prefix ps cs else None)"

lemma dropWhile_Cons_shorter: "dropWhile P xs = y # ys \<Longrightarrow> length ys < length xs"
  using length_dropWhile_le [of P xs] by simp

lemma dropWhile_shorter: "length xs < n \<Longrightarrow> length (dropWhile P xs) < n"
  using length_dropWhile_le [of P xs] by simp

function parse_value :: "js_string \<Rightarrow> (json \<times> js_string) option"
  and parse_elements :: "js_string \<Rightarrow> (json list \<times> js_string) option"
  and parse_members :: "js_string \<Rightarrow> ((js_string \<times> json) list \<times> js_string) option"
where
  "parse_value s =
     (case s of
        [] \<Rightarrow> None
      | c # cs \<Rightarrow>
          if c = 0x22 then map_option (\<lambda>(str, r). (JString str, r)) (parse_string_body cs)
          else if c = 0x5B then
            (case skip_ws cs of
               [] \<Rightarrow> None
             | d # ds \<Rightarrow>
                 if d = 0x5D then Some (JArray [], ds)
                 else map_option (\<lambda>(vs, r). (JArray vs, r)) (parse_elements (d # ds)))
          else if c = 0x7B then
            (case skip_ws cs of
               [] \<Rightarrow> None
             | d # ds \<Rightarrow>
                 if d = 0x7D then Some (JObject [], ds)
                 else map_option (\<lambda>(ms, r). (JObject ms, r)) (parse_members (d # ds)))
          else if c = 0x74 then map_option (Pair (JBool True)) (strip_prefix (utf16 ''true'') s)
          else if c = 0x66 then map_option (Pair (JBool False)) (strip_prefix (utf16 ''false'') s)
          else if c = 0x6E then map_option (Pair JNull) (strip_prefix (utf16 ''null'') s)
          else map_option (\<lambda>(n, r). (JNumber n, r)) (parse_number s))"
| "parse_elements s =
     (case parse_value s of
        None \<Rightarrow> None
      | Some (v, r) \<Rightarrow>
          (case skip_ws r of
             [] \<Rightarrow> None
           | d # ds \<Rightarrow>
               if d = 0x5D then Some ([v], ds)
               else if d = 0x2C \<and> length ds < length s then
                 cons_result v (parse_elements (skip_ws ds))
               else None))"
| "parse_members s =
     (case s of
        [] \<Rightarrow> None
      | q # qs \<Rightarrow>
          if q = 0x22 then
            (case parse_string_body qs of
               None \<Rightarrow> None
             | Some (k, r0) \<Rightarrow>
                 (case skip_ws r0 of
                    [] \<Rightarrow> None
                  | c # cs \<Rightarrow>
                      if c = 0x3A \<and> length cs < length s then
                        (case parse_value (skip_ws cs) of
                           None \<Rightarrow> None
                         | Some (v, r) \<Rightarrow>
                             (case skip_ws r of
                                [] \<Rightarrow> None
                              | d # ds \<Rightarrow>
                                  if d = 0x7D then Some ([(k, v)], ds)
                                  else if d = 0x2C \<and> length ds < length s then
                                    cons_result (k, v) (parse_members (skip_ws ds))
                                  else None))
                      else None))
          else None)"
  by pat_completeness auto
termination
  apply (relation "measures [\<lambda>x. case x of Inl s \<Rightarrow> length s | Inr (Inl s) \<Rightarrow> length s | Inr (Inr s) \<Rightarrow> length s,
                            \<lambda>x. case x of Inl s \<Rightarrow> 0 | Inr (Inl s) \<Rightarrow> 1 | Inr (Inr s) \<Rightarrow> 1]")
  apply (auto simp: skip_ws_def dropWhile_shorter dest: dropWhile_Cons_shorter)
  done

declare parse_value.simps [simp del] parse_elements.simps [simp del]
  parse_members.simps [simp del]



subsection \<open>JSON.stringify\<close>














section \<open>Loading and persisting\<close>














section \<open>Notions for the round trip\<close>



definition value_end :: "js_string \<Rightarrow> bool" where
  "value_end rest \<longleftrightarrow>
     (case rest of [] \<Rightarrow> True | c # cs \<Rightarrow> c = 0x2C \<or> c = 0x5D \<or> c = 0x7D)"






section \<open>Example states\<close>

definition milk_form :: state where
  "milk_form = initial_state\<lparr>name_input := utf16 ''  Milk '', quantity_input := Finite (5 / 2),
     category_input := utf16 ''dairy''\<rparr>"

definition blank_form :: state where
  "blank_form = initial_state\<lparr>name_input := utf16 ''   ''\<rparr>"

definition zero_quantity_no_name :: state where
  "zero_quantity_no_name = initial_state\<lparr>quantity_input := Finite 0\<rparr>"

definition nan_quantity_form :: state where
  "nan_quantity_form = initial_state\<lparr>name_input := utf16 ''Milk'', quantity_input := NaN\<rparr>"


definition bread :: item where
  "bread = \<lparr>id_item = utf16 ''b1'', name = utf16 ''Bread'', quantity = Finite 1,
     category = utf16 ''bakery'', completed = False, createdAt = Finite 1700000000000\<rparr>"

definition eggs :: item where
  "eggs = \<lparr>id_item = utf16 ''e2'', name = utf16 ''Eggs'', quantity = Finite 12,
     category = utf16 ''dairy'', completed = True, createdAt = Finite 1700000000500\<rparr>"

definition two_items :: state where
  "two_items = initial_state\<lparr>items := [eggs, bread], loading := False\<rparr>"


definition editing_bread :: state where
  "editing_bread = startEdit bread two_items"

definition rye_update :: updates where
  "rye_update = \<lparr>upd_name = Some (utf16 '' Rye  ''), upd_quantity = Some (Finite (7 / 2)),
     upd_category = None\<rparr>"

definition zero_update :: updates where
  "zero_update = \<lparr>upd_name = None, upd_quantity = Some (Finite 0), upd_category = None\<rparr>"


section \<open>Facts about trimming and lists\<close>

lemma dropWhile_rev_dropWhile_Nil:
  "dropWhile P (rev (dropWhile P s)) = [] \<longleftrightarrow> dropWhile P s = []"
proof
  assume a: "dropWhile P (rev (dropWhile P s)) = []"
  show "dropWhile P s = []"
  proof (rule ccontr)
    assume n: "dropWhile P s \<noteq> []"
    then have "\<not> P (hd (dropWhile P s))" by (rule hd_dropWhile)
    moreover from n have "hd (dropWhile P s) \<in> set (rev (dropWhile P s))" by simp
    ultimately show False using a by auto
  qed
next
  assume "dropWhile P s = []"
  then show "dropWhile P (rev (dropWhile P s)) = []"
    by (simp del: dropWhile_eq_Nil_conv)
qed

lemma trim_eq_Nil_iff: "trim s = [] \<longleftrightarrow> list_all is_white_space s"
proof -
  have "trim s = [] \<longleftrightarrow> dropWhile is_white_space s = []"
    by (simp add: trim_def dropWhile_rev_dropWhile_Nil del: dropWhile_eq_Nil_conv)
  then show ?thesis by (simp add: list_all_iff)
qed

lemma dropWhile_fixed: "xs = [] \<or> \<not> P (hd xs) \<Longrightarrow> dropWhile P xs = xs"
  by (cases xs) auto

lemma hd_trim: "trim s \<noteq> [] \<Longrightarrow> \<not> is_white_space (hd (trim s))"
proof -
  let ?ys = "dropWhile is_white_space s"
  let ?zs = "dropWhile is_white_space (rev ?ys)"
  assume n: "trim s \<noteq> []"
  then have zs: "?zs \<noteq> []" by (simp add: trim_def del: dropWhile_eq_Nil_conv)
  then have ys: "?ys \<noteq> []" by (auto simp del: dropWhile_eq_Nil_conv)
  have "hd (trim s) = last ?zs" using zs by (simp add: trim_def hd_rev del: dropWhile_eq_Nil_conv)
  also have "\<dots> = last (rev ?ys)"
    using zs by (metis dropWhile_eq_Nil_conv dropWhile_last)
  also have "\<dots> = hd ?ys" using ys by (simp add: last_rev del: dropWhile_eq_Nil_conv)
  finally show ?thesis using hd_dropWhile [OF ys] by simp
qed

lemma trim_trim: "trim (trim s) = trim s"
proof -
  have 1: "dropWhile is_white_space (trim s) = trim s"
    using hd_trim [of s] by (intro dropWhile_fixed) blast
  have 2: "dropWhile is_white_space (rev (trim s)) = rev (trim s)"
    by (simp add: trim_def)
  show ?thesis
    unfolding trim_def [of "trim s"] 1 2 by simp
qed

lemma category_values_nonempty: "c \<in> set category_values \<Longrightarrow> c \<noteq> []"
  by (auto simp: category_values_def utf16_def)

lemma filter_distinct_nth:
  "distinct (map f xs) \<Longrightarrow> k < length xs \<Longrightarrow>
   filter (\<lambda>x. f x \<noteq> f (xs ! k)) xs = take k xs @ drop (Suc k) xs"
proof (induction xs arbitrary: k)
  case Nil
  then show ?case by simp
next
  case (Cons x xs)
  show ?case
  proof (cases k)
    case 0
    have "\<forall>y\<in>set xs. f y \<noteq> f x"
      using Cons.prems(1) by (metis distinct.simps(2) imageI list.simps(9) set_map)
    then have "filter (\<lambda>y. f y \<noteq> f x) xs = xs"
      by (intro filter_True)
    with 0 show ?thesis by simp
  next
    case (Suc j)
    with Cons.prems have j: "j < length xs" and d: "distinct (map f xs)"
      and x: "f x \<noteq> f (xs ! j)" by auto
    show ?thesis using Suc x Cons.IH [OF d j] by simp
  qed
qed

lemma map_update_distinct_nth:
  "distinct (map f xs) \<Longrightarrow> k < length xs \<Longrightarrow>
   map (\<lambda>x. if f x = f (xs ! k) then g x else x) xs = xs[k := g (xs ! k)]"
proof (induction xs arbitrary: k)
  case Nil
  then show ?case by simp
next
  case (Cons x xs)
  show ?case
  proof (cases k)
    case 0
    have "\<forall>y\<in>set xs. f y \<noteq> f x"
      using Cons.prems(1) by (metis distinct.simps(2) imageI list.simps(9) set_map)
    then have "map (\<lambda>y. if f y = f x then g y else y) xs = xs"
      by (intro map_idI) simp
    with 0 show ?thesis by simp
  next
    case (Suc j)
    with Cons.prems have j: "j < length xs" and d: "distinct (map f xs)"
      and x: "f x \<noteq> f (xs ! j)" by auto
    show ?thesis using Suc x Cons.IH [OF d j] by simp
  qed
qed

section \<open>Adding an item\<close>

text \<open>
  C1. For every collection and every valid input (a name that is not empty after trimming,
  a finite quantity above zero, a category of the fixed set), \<open>addItem\<close> yields a collection
  whose head is the new item, with the trimmed name, the floored quantity, the given
  category and \<open>completed = false\<close>, and whose tail is the previous collection.
\<close>

theorem addItem_prepends:
  assumes "trim (name_input s) \<noteq> []"
    and "quantity_input s = Finite q" and "0 < q"
    and "category_input s \<in> set category_values"
  shows "items (addItem fresh now s) =
           \<lparr>id_item = fresh, name = trim (name_input s), quantity = Finite (of_int \<lfloor>q\<rfloor>),
            category = category_input s, completed = False, createdAt = now\<rparr> # items s"
  using assms category_values_nonempty [of "category_input s"]
  by (simp add: addItem_def resetForm_def Let_def)

theorem addItem_prepends_witness:
  "items (addItem (utf16 ''a1'') (Finite 1700000000000) milk_form) =
     [\<lparr>id_item = utf16 ''a1'', name = utf16 ''Milk'', quantity = Finite 2,
       category = utf16 ''dairy'', completed = False, createdAt = Finite 1700000000000\<rparr>]"
proof -
  have f: "\<lfloor>5 / 2 :: rat\<rfloor> = 2" by linarith
  show ?thesis
    using addItem_prepends [of milk_form "5 / 2" "utf16 ''a1''" "Finite 1700000000000"]
    by (simp add: milk_form_def initial_state_def trim_def utf16_def is_white_space_def
        category_values_def f)
qed

text \<open>
  C3. For every collection, \<open>addItem\<close> with a name that is empty or consists of white space
  only leaves the collection as it is and sets the name-required message.
\<close>

theorem addItem_blank_name:
  assumes "list_all is_white_space (name_input s)"
  shows "items (addItem fresh now s) = items s \<and>
         error (addItem fresh now s) = Some (utf16 ''Please enter an item name.'')"
  using assms by (simp add: addItem_def Let_def trim_eq_Nil_iff)

theorem addItem_blank_name_witness:
  "items (addItem (utf16 ''a1'') (Finite 1700000000000) blank_form) = [] \<and>
   error (addItem (utf16 ''a1'') (Finite 1700000000000) blank_form) =
     Some (utf16 ''Please enter an item name.'')"
  using addItem_blank_name [of blank_form "utf16 ''a1''" "Finite 1700000000000"]
  by (simp add: blank_form_def initial_state_def utf16_def is_white_space_def)

text \<open>
  C4, as stated: \<open>addItem\<close> with a quantity that is at most zero or not finite produces the
  quantity message. The name is validated first: with an empty name and quantity 0 the
  message is the name-required one.
\<close>

theorem addItem_quantity_message_counterexample:
  "le_zero (quantity_input zero_quantity_no_name) \<and>
   error (addItem (utf16 ''a1'') (Finite 1700000000000) zero_quantity_no_name) =
     Some (utf16 ''Please enter an item name.'') \<and>
   error (addItem (utf16 ''a1'') (Finite 1700000000000) zero_quantity_no_name) \<noteq>
     Some (utf16 ''Quantity must be a positive number.'')"
  by (simp add: zero_quantity_no_name_def initial_state_def addItem_def Let_def trim_def
      utf16_def)

text \<open>
  C4, amended. For every collection, \<open>addItem\<close> with a quantity that is at most zero or not
  finite leaves the collection as it is and sets an error message; when the name is not empty
  after trimming, the message is the quantity message.
\<close>

theorem addItem_bad_quantity:
  assumes "\<not> isFinite (quantity_input s) \<or> le_zero (quantity_input s)"
  shows "items (addItem fresh now s) = items s \<and>
         error (addItem fresh now s) \<noteq> None \<and>
         (trim (name_input s) \<noteq> [] \<longrightarrow>
            error (addItem fresh now s) = Some (utf16 ''Quantity must be a positive number.''))"
  using assms by (auto simp: addItem_def Let_def)

theorem addItem_bad_quantity_witness:
  "items (addItem (utf16 ''a1'') (Finite 1700000000000) nan_quantity_form) = [] \<and>
   error (addItem (utf16 ''a1'') (Finite 1700000000000) nan_quantity_form) =
     Some (utf16 ''Quantity must be a positive number.'')"
  using addItem_bad_quantity [of nan_quantity_form "utf16 ''a1''" "Finite 1700000000000"]
  by (simp add: nan_quantity_form_def initial_state_def trim_def utf16_def is_white_space_def)

section \<open>Toggling and removing\<close>

text \<open>
  C5. For every collection and every id, toggling the id twice gives the original state back;
  toggling an id that no item has changes nothing.
\<close>

theorem toggleCompleted_twice:
  "toggleCompleted i (toggleCompleted i s) = s \<and>
   (i \<notin> id_item ` set (items s) \<longrightarrow> toggleCompleted i s = s)"
proof
  have "map (\<lambda>it. if id_item it = i then it\<lparr>completed := \<not> completed it\<rparr> else it)
          (map (\<lambda>it. if id_item it = i then it\<lparr>completed := \<not> completed it\<rparr> else it) xs) = xs"
    for xs :: "item list"
    by (induction xs) auto
  then show "toggleCompleted i (toggleCompleted i s) = s"
    by (simp add: toggleCompleted_def)
next
  show "i \<notin> id_item ` set (items s) \<longrightarrow> toggleCompleted i s = s"
  proof
    assume "i \<notin> id_item ` set (items s)"
    then have "map (\<lambda>it. if id_item it = i then it\<lparr>completed := \<not> completed it\<rparr> else it)
                 (items s) = items s"
      by (intro map_idI) auto
    then show "toggleCompleted i s = s" by (simp add: toggleCompleted_def)
  qed
qed

theorem toggleCompleted_twice_witness:
  "utf16 ''zz'' \<notin> id_item ` set (items two_items) \<and>
   toggleCompleted (utf16 ''zz'') two_items = two_items \<and>
   toggleCompleted (utf16 ''b1'') (toggleCompleted (utf16 ''b1'') two_items) = two_items"
  using toggleCompleted_twice [of "utf16 ''zz''" two_items]
    toggleCompleted_twice [of "utf16 ''b1''" two_items]
  by (simp add: two_items_def eggs_def bread_def utf16_def)

text \<open>
  C6. For every collection whose ids are distinct: removing the id of the item at position
  \<open>k\<close> yields the collection without that one item, the others unchanged and in the same
  order, and the length goes down by one; removing an id that no item has leaves the
  collection, and its length, unchanged.
\<close>

theorem removeItem_exactly_one:
  assumes "distinct (map id_item (items s))"
  shows "(k < length (items s) \<longrightarrow>
            items (removeItem (id_item (items s ! k)) s)
              = take k (items s) @ drop (Suc k) (items s) \<and>
            length (items (removeItem (id_item (items s ! k)) s)) = length (items s) - 1) \<and>
         (i \<notin> id_item ` set (items s) \<longrightarrow>
            items (removeItem i s) = items s \<and>
            length (items (removeItem i s)) = length (items s))"
proof (intro conjI impI)
  assume k: "k < length (items s)"
  show eq: "items (removeItem (id_item (items s ! k)) s)
              = take k (items s) @ drop (Suc k) (items s)"
    using filter_distinct_nth [OF assms k] by (simp add: removeItem_def)
  show "length (items (removeItem (id_item (items s ! k)) s)) = length (items s) - 1"
    unfolding eq using k by simp
next
  assume "i \<notin> id_item ` set (items s)"
  then have "filter (\<lambda>it. id_item it \<noteq> i) (items s) = items s"
    by (intro filter_True) auto
  then show "items (removeItem i s) = items s"
    and "length (items (removeItem i s)) = length (items s)"
    by (simp_all add: removeItem_def)
qed

theorem removeItem_exactly_one_witness:
  "distinct (map id_item (items two_items)) \<and>
   items (removeItem (utf16 ''e2'') two_items) = [bread] \<and>
   utf16 ''zz'' \<notin> id_item ` set (items two_items) \<and>
   items (removeItem (utf16 ''zz'') two_items) = [eggs, bread]"
  using removeItem_exactly_one [of two_items 0 "utf16 ''zz''"]
  by (simp add: two_items_def eggs_def bread_def utf16_def)

section \<open>Editing\<close>

text \<open>
  C7. For every collection with distinct ids and every item \<open>e\<close> in it (at position \<open>k\<close>)
  that is being edited: \<open>saveEdit\<close> with a valid name and quantity replaces the item at
  position \<open>k\<close> and changes no other item, nor the length or the order; \<open>saveEdit\<close> with
  a name that is empty after trimming, or a quantity that is at most zero or not finite,
  leaves the whole collection unchanged and sets an error message.
\<close>

theorem saveEdit_frame:
  assumes "distinct (map id_item (items s))"
    and "k < length (items s)"
    and "editing s = Some e" and "e = items s ! k"
  shows "(trim (nextName u e) \<noteq> [] \<and> isFinite (nextQty u e) \<and> \<not> le_zero (nextQty u e) \<longrightarrow>
            items (saveEdit u s) =
              (items s)[k := e\<lparr>name := trim (nextName u e),
                               quantity := Math_floor (nextQty u e),
                               category := nextCat u e\<rparr>] \<and>
            length (items (saveEdit u s)) = length (items s) \<and>
            (\<forall>j < length (items s). j \<noteq> k \<longrightarrow> items (saveEdit u s) ! j = items s ! j)) \<and>
         (trim (nextName u e) = [] \<or> \<not> isFinite (nextQty u e) \<or> le_zero (nextQty u e) \<longrightarrow>
            items (saveEdit u s) = items s \<and> error (saveEdit u s) \<noteq> None)"
proof (intro conjI impI)
  assume v: "trim (nextName u e) \<noteq> [] \<and> isFinite (nextQty u e) \<and> \<not> le_zero (nextQty u e)"
  let ?g = "\<lambda>it. it\<lparr>name := trim (nextName u e), quantity := Math_floor (nextQty u e),
                      category := nextCat u e\<rparr>"
  have "items (saveEdit u s) = map (\<lambda>it. if id_item it = id_item e then ?g it else it) (items s)"
    using v assms(3) by (simp add: saveEdit_def)
  also have "\<dots> = (items s)[k := ?g (items s ! k)]"
    unfolding assms(4) by (rule map_update_distinct_nth [OF assms(1,2)])
  finally show eq: "items (saveEdit u s) = (items s)[k := ?g e]"
    by (simp add: assms(4))
  show "length (items (saveEdit u s)) = length (items s)"
    unfolding eq by simp
  show "\<forall>j < length (items s). j \<noteq> k \<longrightarrow> items (saveEdit u s) ! j = items s ! j"
    unfolding eq by simp
next
  assume "trim (nextName u e) = [] \<or> \<not> isFinite (nextQty u e) \<or> le_zero (nextQty u e)"
  then show "items (saveEdit u s) = items s" and "error (saveEdit u s) \<noteq> None"
    using assms(3) by (auto simp: saveEdit_def)
qed

theorem saveEdit_frame_witness:
  "distinct (map id_item (items editing_bread)) \<and>
   editing editing_bread = Some (items editing_bread ! 1) \<and>
   items (saveEdit rye_update editing_bread) =
     [eggs, bread\<lparr>name := utf16 ''Rye'', quantity := Finite 3\<rparr>] \<and>
   items (saveEdit zero_update editing_bread) = [eggs, bread] \<and>
   error (saveEdit zero_update editing_bread) \<noteq> None"
proof -
  have f: "\<lfloor>7 / 2 :: rat\<rfloor> = 3" by linarith
  show ?thesis
    using saveEdit_frame [of editing_bread 1 bread rye_update]
      saveEdit_frame [of editing_bread 1 bread zero_update]
    by (simp add: editing_bread_def startEdit_def two_items_def eggs_def bread_def utf16_def
        rye_update_def zero_update_def nextName_def nextQty_def nextCat_def nullish_def
        trim_def is_white_space_def f)
qed

text \<open>
  C10. A successful \<open>saveEdit\<close> normalises as \<open>addItem\<close> does: the saved item's name is the
  submitted name trimmed, and its quantity is the submitted quantity floored.
\<close>

theorem saveEdit_normalises:
  assumes "editing s = Some e"
    and "upd_name u = Some n" and "trim n \<noteq> []"
    and "upd_quantity u = Some (Finite q)" and "0 < q"
    and "k < length (items s)" and "id_item (items s ! k) = id_item e"
  shows "name (items (saveEdit u s) ! k) = trim n \<and>
         quantity (items (saveEdit u s) ! k) = Finite (of_int \<lfloor>q\<rfloor>)"
  using assms by (simp add: saveEdit_def nextName_def nextQty_def nullish_def)

theorem saveEdit_normalises_witness:
  "name (items (saveEdit rye_update editing_bread) ! 1) = utf16 ''Rye'' \<and>
   quantity (items (saveEdit rye_update editing_bread) ! 1) = Finite 3"
proof -
  have f: "\<lfloor>7 / 2 :: rat\<rfloor> = 3" by linarith
  show ?thesis
    using saveEdit_normalises [of editing_bread bread rye_update "utf16 '' Rye  ''" "7 / 2" 1]
    by (simp add: editing_bread_def startEdit_def two_items_def eggs_def bread_def utf16_def
        rye_update_def trim_def is_white_space_def f)
qed

section \<open>The invariant\<close>

text \<open>
  Toggling and removing keep the invariant; adding and editing keep it when the submitted
  quantity is at least 1.
\<close>

lemma toggleCompleted_invariant: "invariant s \<Longrightarrow> invariant (toggleCompleted i s)"
  by (auto simp: invariant_def toggleCompleted_def list_all_iff item_ok_def)

lemma removeItem_invariant: "invariant s \<Longrightarrow> invariant (removeItem i s)"
  by (auto simp: invariant_def removeItem_def list_all_iff)

lemma positive_integer_floor:
  "1 \<le> q \<Longrightarrow> positive_integer (Math_floor (Finite q))"
  by (simp add: le_floor_iff)

lemma addItem_invariant:
  assumes "invariant s" and "\<forall>q. quantity_input s = Finite q \<longrightarrow> 1 \<le> q"
  shows "invariant (addItem fresh now s)"
  using assms
  by (cases "quantity_input s")
    (auto simp: invariant_def addItem_def resetForm_def Let_def item_ok_def trim_trim le_floor_iff)

lemma saveEdit_invariant:
  assumes "invariant s" and "\<forall>e q. editing s = Some e \<and> nextQty u e = Finite q \<longrightarrow> 1 \<le> q"
  shows "invariant (saveEdit u s)"
proof (cases "editing s")
  case None
  then show ?thesis using assms(1) by (simp add: saveEdit_def)
next
  case (Some e)
  then show ?thesis
    using assms
    by (cases "nextQty u e")
      (auto simp: invariant_def saveEdit_def list_all_iff item_ok_def trim_trim le_floor_iff)
qed



section \<open>The parser consumes what it reads\<close>

text \<open>Each function that returns a value returns a rest that is shorter than its input.\<close>

lemma parse_string_body_shorter:
  "parse_string_body s = Some (x, r) \<Longrightarrow> length r < length s"
proof (induction s arbitrary: x r rule: parse_string_body.induct)
  case 1
  then show ?case by simp
next
  case (2 c cs)
  then show ?case
    by (fastforce simp: cons_result_def split: if_splits list.splits option.splits)
qed

lemma strip_prefix_length:
  "strip_prefix p s = Some r \<Longrightarrow> length s = length p + length r"
  by (induction p s rule: strip_prefix.induct) (auto split: if_splits)

lemma int_part_shorter: "int_part s = Some (n, r) \<Longrightarrow> length r < length s"
  using length_dropWhile_le [of is_digit "tl s"]
  by (cases s) (auto simp: int_part_def split: if_splits)

lemma frac_part_shorter: "frac_part s = Some (f, r) \<Longrightarrow> length r \<le> length s"
  using length_dropWhile_le [of is_digit "tl s"]
  by (cases s) (auto simp: frac_part_def Let_def split: if_splits)

lemma exp_digits_shorter: "exp_digits s = Some (n, r) \<Longrightarrow> length r \<le> length s"
  using length_dropWhile_le [of is_digit s]
  by (auto simp: exp_digits_def Let_def split: if_splits)

lemma exp_part_shorter: "exp_part s = Some (e, r) \<Longrightarrow> length r \<le> length s"
  by (cases s) (fastforce simp: exp_part_def split: if_splits list.splits dest: exp_digits_shorter)+

lemma unsigned_number_shorter: "unsigned_number s = Some (q, r) \<Longrightarrow> length r < length s"
  by (fastforce simp: unsigned_number_def split: option.splits prod.splits
      dest: int_part_shorter frac_part_shorter exp_part_shorter)

lemma parse_number_shorter: "parse_number s = Some (n, r) \<Longrightarrow> length r < length s"
  by (cases s) (fastforce simp: parse_number_def split: if_splits dest: unsigned_number_shorter)+

lemma skip_ws_le: "length (skip_ws s) \<le> length s"
  by (simp add: skip_ws_def length_dropWhile_le)

lemma skip_ws_Cons_shorter: "skip_ws s = d # ds \<Longrightarrow> length ds < length s"
  using skip_ws_le [of s] by simp

lemma parse_shorter:
  "parse_value s = Some (v, r) \<Longrightarrow> length r < length s"
  "parse_elements s = Some (vs, r1) \<Longrightarrow> length r1 < length s"
  "parse_members s = Some (ms, r2) \<Longrightarrow> length r2 < length s"
proof (induction s and s and s arbitrary: v r and vs r1 and ms r2
    rule: parse_value_parse_elements_parse_members.induct)
  case (1 s)
  from "1.prems" obtain c cs where s: "s = c # cs"
    by (cases s) (auto simp: parse_value.simps)
  consider (str) "c = 0x22" | (arr) "c = 0x5B" | (obj) "c = 0x7B"
    | (lit) "c \<notin> {0x22, 0x5B, 0x7B}" "c = 0x74 \<or> c = 0x66 \<or> c = 0x6E"
    | (num) "c \<notin> {0x22, 0x5B, 0x7B, 0x74, 0x66, 0x6E}"
    by blast
  then show ?case
  proof cases
    case str
    with "1.prems" show ?thesis
      by (auto simp: parse_value.simps s dest: parse_string_body_shorter)
  next
    case arr
    from "1.prems" arr obtain d ds where d: "skip_ws cs = d # ds"
      by (cases "skip_ws cs") (auto simp: parse_value.simps s)
    have l: "length ds < length cs" using d by (rule skip_ws_Cons_shorter)
    show ?thesis
    proof (cases "d = 0x5D")
      case True
      with "1.prems" arr d l show ?thesis by (auto simp: parse_value.simps s)
    next
      case False
      with "1.prems" arr d obtain vs where "parse_elements (d # ds) = Some (vs, r)"
        by (auto simp: parse_value.simps s)
      then have "length r < length (d # ds)"
        using "1.IH"(1) [OF s _ _ d False] arr by simp
      with l show ?thesis by (simp add: s)
    qed
  next
    case obj
    from "1.prems" obj obtain d ds where d: "skip_ws cs = d # ds"
      by (cases "skip_ws cs") (auto simp: parse_value.simps s)
    have l: "length ds < length cs" using d by (rule skip_ws_Cons_shorter)
    show ?thesis
    proof (cases "d = 0x7D")
      case True
      with "1.prems" obj d l show ?thesis by (auto simp: parse_value.simps s)
    next
      case False
      with "1.prems" obj d obtain ms where "parse_members (d # ds) = Some (ms, r)"
        by (auto simp: parse_value.simps s)
      then have "length r < length (d # ds)"
        using "1.IH"(2) [OF s _ _ _ d False] obj by simp
      with l show ?thesis by (simp add: s)
    qed
  next
    case lit
    with "1.prems" show ?thesis
      by (auto simp: parse_value.simps s utf16_def dest!: strip_prefix_length split: if_splits)
  next
    case num
    with "1.prems" show ?thesis
      by (auto simp: parse_value.simps s dest: parse_number_shorter)
  qed
next
  case (2 s)
  from "2.prems" obtain v r where v: "parse_value s = Some (v, r)"
    by (cases "parse_value s") (auto simp: parse_elements.simps)
  then have lr: "length r < length s" by (rule "2.IH"(1))
  from "2.prems" v obtain d ds where d: "skip_ws r = d # ds"
    by (cases "skip_ws r") (auto simp: parse_elements.simps)
  have l: "length ds < length s" using skip_ws_Cons_shorter [OF d] lr by simp
  show ?case
  proof (cases "d = 0x5D")
    case True
    with "2.prems" v d l show ?thesis by (auto simp: parse_elements.simps)
  next
    case False
    with "2.prems" v d l obtain vs' where c: "d = 0x2C"
      and p: "parse_elements (skip_ws ds) = Some (vs', r1)"
      by (auto simp: parse_elements.simps cons_result_def split: if_splits)
    have "length r1 < length (skip_ws ds)"
      using "2.IH"(2) [OF v refl d False _ p] c l by simp
    with l skip_ws_le [of ds] show ?thesis by simp
  qed
next
  case (3 s)
  from "3.prems" obtain q qs where s: "s = q # qs" and q: "q = 0x22"
    by (cases s) (auto simp: parse_members.simps split: if_splits)
  from "3.prems" s q obtain k r0 where k: "parse_string_body qs = Some (k, r0)"
    by (cases "parse_string_body qs") (auto simp: parse_members.simps)
  from "3.prems" s q k obtain c cs where c: "skip_ws r0 = c # cs"
    by (cases "skip_ws r0") (auto simp: parse_members.simps)
  from "3.prems" s q k c have g: "c = 0x3A \<and> length cs < length s"
    by (auto simp: parse_members.simps split: if_splits)
  from "3.prems" s q k c g obtain v r where v: "parse_value (skip_ws cs) = Some (v, r)"
    by (cases "parse_value (skip_ws cs)") (auto simp: parse_members.simps)
  have lr: "length r < length (skip_ws cs)"
    using "3.IH"(1) [OF s q k refl c g v] .
  from "3.prems" s q k c g v obtain d ds where d: "skip_ws r = d # ds"
    by (cases "skip_ws r") (auto simp: parse_members.simps)
  have l: "length ds < length s"
    using skip_ws_Cons_shorter [OF d] lr skip_ws_le [of cs] g by simp
  show ?case
  proof (cases "d = 0x7D")
    case True
    with "3.prems" s q k c g v d l show ?thesis by (auto simp: parse_members.simps)
  next
    case False
    with "3.prems" s q k c g v d l obtain ms' where e: "d = 0x2C"
      and p: "parse_members (skip_ws ds) = Some (ms', r2)"
      by (auto simp: parse_members.simps cons_result_def split: if_splits)
    have "length r2 < length (skip_ws ds)"
      using "3.IH"(2) [OF s q k refl c g v refl d False _ p] e l by simp
    with l skip_ws_le [of ds] show ?thesis by simp
  qed
qed


text \<open>
  The two length tests in the definition of the parser are always passed: they only make
  its termination evident. The functions satisfy the equations without them.
\<close>

lemma parse_elements_eq:
  "parse_elements s =
     (case parse_value s of
        None \<Rightarrow> None
      | Some (v, r) \<Rightarrow>
          (case skip_ws r of
             [] \<Rightarrow> None
           | d # ds \<Rightarrow>
               if d = 0x5D then Some ([v], ds)
               else if d = 0x2C then cons_result v (parse_elements (skip_ws ds))
               else None))"
proof (cases "parse_value s")
  case None
  then show ?thesis by (subst parse_elements.simps) simp
next
  case (Some a)
  obtain v r where a: "a = (v, r)" by (cases a)
  have lr: "length r < length s" using Some parse_shorter(1) by (simp add: a)
  show ?thesis
  proof (cases "skip_ws r")
    case Nil
    with Some a show ?thesis by (subst parse_elements.simps) simp
  next
    case (Cons d ds)
    then have "length ds < length s" using skip_ws_Cons_shorter [of r d ds] lr by simp
    with Some a Cons show ?thesis by (subst parse_elements.simps) simp
  qed
qed

lemma parse_members_eq:
  "parse_members s =
     (case s of
        [] \<Rightarrow> None
      | q # qs \<Rightarrow>
          if q = 0x22 then
            (case parse_string_body qs of
               None \<Rightarrow> None
             | Some (k, r0) \<Rightarrow>
                 (case skip_ws r0 of
                    [] \<Rightarrow> None
                  | c # cs \<Rightarrow>
                      if c = 0x3A then
                        (case parse_value (skip_ws cs) of
                           None \<Rightarrow> None
                         | Some (v, r) \<Rightarrow>
                             (case skip_ws r of
                                [] \<Rightarrow> None
                              | d # ds \<Rightarrow>
                                  if d = 0x7D then Some ([(k, v)], ds)
                                  else if d = 0x2C then
                                    cons_result (k, v) (parse_members (skip_ws ds))
                                  else None))
                      else None))
          else None)"
proof -
  have 1: "length cs < Suc (length qs)"
    if "parse_string_body qs = Some (k, r0)" "skip_ws r0 = c # cs" for qs k r0 c cs
    using parse_string_body_shorter [OF that(1)] skip_ws_Cons_shorter [OF that(2)] by simp
  have 2: "length ds < Suc (length qs)"
    if "parse_string_body qs = Some (k, r0)" "skip_ws r0 = c # cs"
      "parse_value (skip_ws cs) = Some (v, r)" "skip_ws r = d # ds"
    for qs k r0 c cs v r d ds
    using 1 [OF that(1,2)] parse_shorter(1) [OF that(3)] skip_ws_le [of cs]
      skip_ws_Cons_shorter [OF that(4)]
    by simp
  show ?thesis
    by (subst parse_members.simps)
      (auto split: list.split option.split dest: 1 2)
qed

section \<open>Loading\<close>




section \<open>Parsing what was serialized\<close>

subsection \<open>Strings\<close>













subsection \<open>Numbers of the decimal fragment\<close>













subsection \<open>Values\<close>


lemma value_end_simps [simp]:
  "value_end (0x2C # s)" "value_end (0x5D # s)" "value_end (0x7D # s)" "value_end []"
  by (simp_all add: value_end_def)



lemma skip_ws_punct [simp]:
  "skip_ws (0x2C # s) = 0x2C # s" "skip_ws (0x5D # s) = 0x5D # s"
  "skip_ws (0x7D # s) = 0x7D # s" "skip_ws (0x3A # s) = 0x3A # s"
  by (simp_all add: skip_ws_def is_json_ws_def)



















section \<open>Persisting and loading again\<close>








end
